theory Spec2Isabelle
  imports Main
begin

section \<open>Regular expressions as package regexp reads them\<close>

text \<open>
  The matchers of \<^verbatim>\<open>helpers.go\<close> are values of Go's \<^verbatim>\<open>*regexp.Regexp\<close>, built by
  \<^verbatim>\<open>regexp.MustCompile\<close> from a pattern in RE2 syntax. A pattern is embedded as the
  syntax tree the pattern denotes, and acceptance is \<^verbatim>\<open>MatchString\<close>: the value
  contains a match of the pattern somewhere (a pattern is tied to the ends of the
  value only where it says \<^verbatim>\<open>^\<close> and \<^verbatim>\<open>$\<close>).

  Go matches over runes (Unicode code points), so a value is a list of runes. An ASCII
  string literal is its own list of code points.
\<close>

type_synonym rune = nat

definition runes :: "string \<Rightarrow> rune list" where
  "runes s = map of_char s"

text \<open>
  The members of a bracket expression: a range \<^verbatim>\<open>a-z\<close> (a single rune is the range
  from it to itself), the Perl classes \<^verbatim>\<open>\d\<close> and \<^verbatim>\<open>\s\<close> (ASCII only in RE2) and a
  Unicode category \<^verbatim>\<open>\p{L}\<close>. The Unicode tables belong to Go's standard library;
  they are a parameter of the matcher.
\<close>

datatype cc_item = CharRange rune rune | Perl_d | Perl_s | UniCat string

type_synonym unicode_tables = "string \<Rightarrow> rune \<Rightarrow> bool"

text \<open>
  The syntax tree of a pattern: the empty pattern, a literal rune, a literal rune under
  \<^verbatim>\<open>(?i)\<close>, a bracket expression (negated or not), \<^verbatim>\<open>^\<close> (beginning of the text),
  \<^verbatim>\<open>$\<close> (end of the text; no pattern here sets the multi-line flag), concatenation,
  alternation, \<^verbatim>\<open>*\<close>, \<^verbatim>\<open>+\<close>, \<^verbatim>\<open>?\<close>, and the counted repetitions: \<open>Rep n None\<close>
  is \<^verbatim>\<open>{n}\<close> and \<open>Rep n (Some m)\<close> is \<^verbatim>\<open>{n,m}\<close>.
\<close>

datatype regex =
    Empty
  | Lit rune
  | LitFold rune
  | Class bool "cc_item list"
  | Bol
  | Eol
  | Cat regex regex
  | Alt regex regex
  | Star regex
  | Plus regex
  | Opt regex
  | Rep nat "nat option" regex

fun cc_item_has :: "unicode_tables \<Rightarrow> cc_item \<Rightarrow> rune \<Rightarrow> bool" where
  "cc_item_has ut (CharRange lo hi) c = (lo \<le> c \<and> c \<le> hi)"
| "cc_item_has ut Perl_d c = (48 \<le> c \<and> c \<le> 57)"
| "cc_item_has ut Perl_s c = (c = 9 \<or> c = 10 \<or> c = 12 \<or> c = 13 \<or> c = 32)"
| "cc_item_has ut (UniCat n) c = ut n c"

definition class_has :: "unicode_tables \<Rightarrow> bool \<Rightarrow> cc_item list \<Rightarrow> rune \<Rightarrow> bool" where
  "class_has ut negated items c = (list_ex (\<lambda>i. cc_item_has ut i c) items \<noteq> negated)"

text \<open>
  Under the flag \<^verbatim>\<open>(?i)\<close> a literal matches every rune of its orbit under Unicode
  simple case folding. For an ASCII letter that is its two cases, and besides them
  U+212A (Kelvin sign) for k and U+017F (long s) for s. The patterns of this file fold
  ASCII letters only.
\<close>

definition fold_orbit :: "rune \<Rightarrow> rune list" where
  "fold_orbit c =
     (if 65 \<le> c \<and> c \<le> 90 \<or> 97 \<le> c \<and> c \<le> 122 then
        (let lo = (if c \<le> 90 then c + 32 else c) in
         [lo - 32, lo] @ (if lo = 107 then [8490] else if lo = 115 then [383] else []))
      else [c])"

text \<open>
  A position in the value: whether it is the beginning of the text, and the runes still
  to read. \<open>step ut r p\<close> lists the positions at which a match of \<open>r\<close> that starts at
  \<open>p\<close> can end.
\<close>

type_synonym pos = "bool \<times> rune list"

definition take_rune :: "(rune \<Rightarrow> bool) \<Rightarrow> pos \<Rightarrow> pos list" where
  "take_rune ok p = (case snd p of [] \<Rightarrow> [] | c # t \<Rightarrow> if ok c then [(False, t)] else [])"

function star_run :: "(pos \<Rightarrow> pos list) \<Rightarrow> pos \<Rightarrow> pos list" where
  "star_run f p =
     p # concat (map (star_run f) (filter (\<lambda>q. length (snd q) < length (snd p)) (f p)))"
  by pat_completeness auto
termination
  by (relation "measure (\<lambda>(f, p). length (snd p))") auto

declare star_run.simps [simp del]

primrec rep_exact :: "(pos \<Rightarrow> pos list) \<Rightarrow> nat \<Rightarrow> pos \<Rightarrow> pos list" where
  "rep_exact f 0 p = [p]"
| "rep_exact f (Suc n) p = concat (map (rep_exact f n) (f p))"

primrec rep_upto :: "(pos \<Rightarrow> pos list) \<Rightarrow> nat \<Rightarrow> pos \<Rightarrow> pos list" where
  "rep_upto f 0 p = [p]"
| "rep_upto f (Suc n) p = p # concat (map (rep_upto f n) (f p))"

primrec step :: "unicode_tables \<Rightarrow> regex \<Rightarrow> pos \<Rightarrow> pos list" where
  "step ut Empty = (\<lambda>p. [p])"
| "step ut (Lit c) = take_rune (\<lambda>x. x = c)"
| "step ut (LitFold c) = take_rune (\<lambda>x. x \<in> set (fold_orbit c))"
| "step ut (Class negated items) = take_rune (class_has ut negated items)"
| "step ut Bol = (\<lambda>p. if fst p then [p] else [])"
| "step ut Eol = (\<lambda>p. if snd p = [] then [p] else [])"
| "step ut (Cat r1 r2) = (\<lambda>p. remdups (concat (map (step ut r2) (step ut r1 p))))"
| "step ut (Alt r1 r2) = (\<lambda>p. remdups (step ut r1 p @ step ut r2 p))"
| "step ut (Star r) = (\<lambda>p. remdups (star_run (step ut r) p))"
| "step ut (Plus r) = (\<lambda>p. remdups (concat (map (star_run (step ut r)) (step ut r p))))"
| "step ut (Opt r) = (\<lambda>p. remdups (step ut r p @ [p]))"
| "step ut (Rep n m r) = (\<lambda>p. remdups (case m of
       None \<Rightarrow> rep_exact (step ut r) n p
     | Some k \<Rightarrow> concat (map (rep_upto (step ut r) (k - n)) (rep_exact (step ut r) n p))))"

text \<open>The positions of a value at which a match may start: the beginning, then each later one.\<close>

fun later_starts :: "rune list \<Rightarrow> pos list" where
  "later_starts [] = []"
| "later_starts (c # t) = (False, t) # later_starts t"

definition starts :: "rune list \<Rightarrow> pos list" where
  "starts s = (True, s) # later_starts s"

definition MatchString :: "unicode_tables \<Rightarrow> regex \<Rightarrow> rune list \<Rightarrow> bool" where
  "MatchString ut re s = list_ex (\<lambda>p. step ut re p \<noteq> []) (starts s)"

text \<open>
  What a pattern means, as a relation between positions: \<open>(p, q) \<in> sem ut r\<close> when
  a match of \<open>r\<close> that starts at \<open>p\<close> ends at \<open>q\<close>. Concatenation is relational
  composition, a star the reflexive transitive closure, a counted repetition a power.
  \<open>step\<close> computes this relation (theorem \<open>step_computes_sem\<close> below).
\<close>

definition consume :: "(rune \<Rightarrow> bool) \<Rightarrow> (pos \<times> pos) set" where
  "consume ok = {((b, c # t), (False, t)) | b c t. ok c}"

primrec sem :: "unicode_tables \<Rightarrow> regex \<Rightarrow> (pos \<times> pos) set" where
  "sem ut Empty = Id"
| "sem ut (Lit c) = consume (\<lambda>x. x = c)"
| "sem ut (LitFold c) = consume (\<lambda>x. x \<in> set (fold_orbit c))"
| "sem ut (Class negated items) = consume (class_has ut negated items)"
| "sem ut Bol = {(p, p) | p. fst p}"
| "sem ut Eol = {(p, p) | p. snd p = []}"
| "sem ut (Cat r1 r2) = sem ut r1 O sem ut r2"
| "sem ut (Alt r1 r2) = sem ut r1 \<union> sem ut r2"
| "sem ut (Star r) = (sem ut r)\<^sup>*"
| "sem ut (Plus r) = sem ut r O (sem ut r)\<^sup>*"
| "sem ut (Opt r) = sem ut r \<union> Id"
| "sem ut (Rep n m r) =
     (case m of None \<Rightarrow> sem ut r ^^ n | Some k \<Rightarrow> (\<Union>j\<in>{0..k - n}. sem ut r ^^ (n + j)))"

text \<open>A relation between positions that stays in place or moves forward in the value.\<close>

definition consuming :: "(pos \<times> pos) set \<Rightarrow> bool" where
  "consuming R = (\<forall>p q. (p, q) \<in> R \<longrightarrow> q = p \<or> length (snd q) < length (snd p))"

section \<open>The patterns of helpers.go\<close>

text \<open>
  Each pattern is written as the tree \<^verbatim>\<open>regexp/syntax\<close> parses it to. \<open>seq\<close> is a
  concatenation, \<open>alts\<close> an alternation, \<open>ch\<close> a literal character, \<open>strf\<close> a
  literal string under \<^verbatim>\<open>(?i)\<close>, \<open>cls\<close> a bracket expression with members \<open>rng\<close>
  (a range) and \<open>one\<close> (a single character); capturing and non-capturing groups only
  bracket.
\<close>

fun seq :: "regex list \<Rightarrow> regex" where
  "seq [] = Empty"
| "seq [r] = r"
| "seq (r # rs) = Cat r (seq rs)"

fun alts :: "regex list \<Rightarrow> regex" where
  "alts [] = Class False []"
| "alts [r] = r"
| "alts (r # rs) = Alt r (alts rs)"

definition strf :: "string \<Rightarrow> regex" where
  "strf s = seq (map (\<lambda>c. LitFold (of_char c)) s)"

definition ch :: "char \<Rightarrow> regex" where
  "ch c = Lit (of_char c)"

definition rng :: "char \<Rightarrow> char \<Rightarrow> cc_item" where
  "rng a b = CharRange (of_char a) (of_char b)"

definition one :: "char \<Rightarrow> cc_item" where
  "one a = CharRange (of_char a) (of_char a)"

definition cls :: "cc_item list \<Rightarrow> regex" where
  "cls items = Class False items"

text \<open>\<^verbatim>\<open>\d\<close>\<close>

definition digit :: regex where
  "digit = cls [Perl_d]"

text \<open>\<^verbatim>\<open>(?i)center|justify|left|right|char\<close>\<close>

definition CellAlign :: regex where
  "CellAlign = alts [strf ''center'', strf ''justify'', strf ''left'', strf ''right'', strf ''char'']"

text \<open>\<^verbatim>\<open>(?i)baseline|bottom|middle|top\<close>\<close>

definition CellVerticalAlign :: regex where
  "CellVerticalAlign = alts [strf ''baseline'', strf ''bottom'', strf ''middle'', strf ''top'']"

text \<open>\<^verbatim>\<open>(?i)rtl|ltr\<close>\<close>

definition Direction :: regex where
  "Direction = alts [strf ''rtl'', strf ''ltr'']"

text \<open>\<^verbatim>\<open>(?i)left|right|top|texttop|middle|absmiddle|baseline|bottom|absbottom\<close>\<close>

definition ImageAlign :: regex where
  "ImageAlign = alts [strf ''left'', strf ''right'', strf ''top'', strf ''texttop'',
     strf ''middle'', strf ''absmiddle'', strf ''baseline'', strf ''bottom'', strf ''absbottom'']"

text \<open>\<^verbatim>\<open>[0-9]+\<close>\<close>

definition Integer :: regex where
  "Integer = Plus (cls [rng CHR ''0'' CHR ''9''])"

text \<open>
  ISO8601, group by group as the pattern nests them.

  \<^verbatim>\<open>([\+-]?\d{4})\<close>
\<close>

definition iso_year :: regex where
  "iso_year = seq [Opt (cls [one CHR ''+'', one CHR ''-'']), Rep 4 None digit]"

text \<open>\<^verbatim>\<open>(0[1-9]|1[0-2])([12]\d|0[1-9]|3[01])?\<close>\<close>

definition iso_month_day :: regex where
  "iso_month_day = seq [
     alts [seq [ch CHR ''0'', cls [rng CHR ''1'' CHR ''9'']],
           seq [ch CHR ''1'', cls [rng CHR ''0'' CHR ''2'']]],
     Opt (alts [seq [cls [one CHR ''1'', one CHR ''2''], digit],
                seq [ch CHR ''0'', cls [rng CHR ''1'' CHR ''9'']],
                seq [ch CHR ''3'', cls [one CHR ''0'', one CHR ''1'']]])]"

text \<open>\<^verbatim>\<open>W([0-4]\d|5[0-2])(-?[1-7])?\<close>\<close>

definition iso_week :: regex where
  "iso_week = seq [
     ch CHR ''W'',
     alts [seq [cls [rng CHR ''0'' CHR ''4''], digit],
           seq [ch CHR ''5'', cls [rng CHR ''0'' CHR ''2'']]],
     Opt (seq [Opt (ch CHR ''-''), cls [rng CHR ''1'' CHR ''7'']])]"

text \<open>\<^verbatim>\<open>(00[1-9]|0[1-9]\d|[12]\d{2}|3([0-5]\d|6[1-6]))\<close>\<close>

definition iso_ordinal :: regex where
  "iso_ordinal = alts [
     seq [ch CHR ''0'', ch CHR ''0'', cls [rng CHR ''1'' CHR ''9'']],
     seq [ch CHR ''0'', cls [rng CHR ''1'' CHR ''9''], digit],
     seq [cls [one CHR ''1'', one CHR ''2''], Rep 2 None digit],
     seq [ch CHR ''3'',
          alts [seq [cls [rng CHR ''0'' CHR ''5''], digit],
                seq [ch CHR ''6'', cls [rng CHR ''1'' CHR ''6'']]]]]"

text \<open>\<^verbatim>\<open>((([01]\d|2[0-3])((:?)[0-5]\d)?|24\:?00)([\.,]\d+[^:])?)?\<close>\<close>

definition iso_hour_minute :: regex where
  "iso_hour_minute = Opt (seq [
     alts [seq [alts [seq [cls [one CHR ''0'', one CHR ''1''], digit],
                      seq [ch CHR ''2'', cls [rng CHR ''0'' CHR ''3'']]],
                Opt (seq [Opt (ch CHR '':''), cls [rng CHR ''0'' CHR ''5''], digit])],
           seq [ch CHR ''2'', ch CHR ''4'', Opt (ch CHR '':''), ch CHR ''0'', ch CHR ''0'']],
     Opt (seq [cls [one CHR ''.'', one CHR '',''], Plus digit, Class True [one CHR '':'']])])"

text \<open>\<^verbatim>\<open>([0-5]\d([\.,]\d+)?)?\<close>\<close>

definition iso_second :: regex where
  "iso_second = Opt (seq [cls [rng CHR ''0'' CHR ''5''], digit,
     Opt (seq [cls [one CHR ''.'', one CHR '',''], Plus digit])])"

text \<open>\<^verbatim>\<open>([zZ]|([\+-])([01]\d|2[0-3]):?([0-5]\d)?)?\<close>\<close>

definition iso_zone :: regex where
  "iso_zone = Opt (alts [
     cls [one CHR ''z'', one CHR ''Z''],
     seq [cls [one CHR ''+'', one CHR ''-''],
          alts [seq [cls [one CHR ''0'', one CHR ''1''], digit],
                seq [ch CHR ''2'', cls [rng CHR ''0'' CHR ''3'']]],
          Opt (ch CHR '':''),
          Opt (seq [cls [rng CHR ''0'' CHR ''5''], digit])]])"

text \<open>\<^verbatim>\<open>([T\s] hour-minute second zone)?\<close>\<close>

definition iso_time :: regex where
  "iso_time = Opt (seq [cls [one CHR ''T'', Perl_s], iso_hour_minute, iso_second, iso_zone])"

text \<open>\<^verbatim>\<open>^ year ((-?)(month-day|week|ordinal) time)?$\<close>\<close>

definition ISO8601 :: regex where
  "ISO8601 = seq [Bol, iso_year,
     Opt (seq [Opt (ch CHR ''-''), alts [iso_month_day, iso_week, iso_ordinal], iso_time]),
     Eol]"

text \<open>\<^verbatim>\<open>(?i)circle|disc|square|a|A|i|I|1\<close>\<close>

definition ListType :: regex where
  "ListType = alts [strf ''circle'', strf ''disc'', strf ''square'', strf ''a'', strf ''A'',
     strf ''i'', strf ''I'', strf ''1'']"

text \<open>\<^verbatim>\<open>[a-zA-Z0-9\-_\$]+\<close>\<close>

definition NamesAndSpaces :: regex where
  "NamesAndSpaces = Plus (cls [rng CHR ''a'' CHR ''z'', rng CHR ''A'' CHR ''Z'',
     rng CHR ''0'' CHR ''9'', one CHR ''-'', one CHR ''_'', one CHR ''$''])"

text \<open>\<^verbatim>\<open>^[-+]?[0-9]*\.?[0-9]+$\<close>\<close>

definition Number :: regex where
  "Number = seq [Bol, Opt (cls [one CHR ''-'', one CHR ''+'']),
     Star (cls [rng CHR ''0'' CHR ''9'']), Opt (ch CHR ''.''),
     Plus (cls [rng CHR ''0'' CHR ''9'']), Eol]"

text \<open>\<^verbatim>\<open>[0-9]+%?\<close>\<close>

definition NumberOrPercent :: regex where
  "NumberOrPercent = seq [Plus (cls [rng CHR ''0'' CHR ''9'']), Opt (ch CHR ''%'')]"

text \<open>
  \<^verbatim>\<open>[\p{L}\p{N}\s\-_',:\[\]!\./\\\(\)&]*\<close>; the apostrophe is rune 39 and the
  backslash rune 92.
\<close>

definition Paragraph :: regex where
  "Paragraph = Star (cls [UniCat ''L'', UniCat ''N'', Perl_s, one CHR ''-'', one CHR ''_'',
     CharRange 39 39, one CHR '','', one CHR '':'', one CHR ''['', one CHR '']'', one CHR ''!'',
     one CHR ''.'', one CHR ''/'', CharRange 92 92, one CHR ''('', one CHR '')'', one CHR ''&''])"

text \<open>The patterns compiled inside the helpers: \<^verbatim>\<open>[a-zA-Z]{2,20}\<close> for lang,\<close>

definition lang_pattern :: regex where
  "lang_pattern = Rep 2 (Some 20) (cls [rng CHR ''a'' CHR ''z'', rng CHR ''A'' CHR ''Z''])"

text \<open>\<^verbatim>\<open>[a-zA-Z0-9\:\-_\.]+\<close> for id,\<close>

definition id_pattern :: regex where
  "id_pattern = Plus (cls [rng CHR ''a'' CHR ''z'', rng CHR ''A'' CHR ''Z'',
     rng CHR ''0'' CHR ''9'', one CHR '':'', one CHR ''-'', one CHR ''_'', one CHR ''.''])"

text \<open>\<^verbatim>\<open>(?i)(?:row|col)(?:group)?\<close> for scope,\<close>

definition scope_pattern :: regex where
  "scope_pattern = seq [alts [strf ''row'', strf ''col''], Opt (strf ''group'')]"

text \<open>and \<^verbatim>\<open>(?i)|nowrap\<close> for nowrap: an alternation whose first branch is empty.\<close>

definition nowrap_pattern :: regex where
  "nowrap_pattern = alts [Empty, strf ''nowrap'']"

text \<open>
  The words of the specification for values: an ASCII digit, and the value that is
  empty or the token nowrap in any mix of cases.
\<close>

definition is_ascii_digit :: "rune \<Rightarrow> bool" where
  "is_ascii_digit c = (48 \<le> c \<and> c \<le> 57)"

definition ascii_lower :: "rune \<Rightarrow> rune" where
  "ascii_lower c = (if 65 \<le> c \<and> c \<le> 90 then c + 32 else c)"

definition is_empty_or_nowrap :: "rune list \<Rightarrow> bool" where
  "is_empty_or_nowrap s = (s = [] \<or> map ascii_lower s = runes ''nowrap'')"

section \<open>The policy\<close>

text \<open>
  \<^verbatim>\<open>helpers.go\<close> calls the builder methods of \<^verbatim>\<open>Policy\<close>; the type, these methods and
  the query side are not in this file of the repository. They are modelled from the
  specification (sections 3 and 4), the helpers are embedded from the source over them.
\<close>

text \<open>
  Modelled from the spec: the Matcher of an AttributeRule (section 3). It is a pattern,
  or absent when the rule admits the attribute with no value matcher.
\<close>

type_synonym matcher = "regex option"

text \<open>
  Modelled from the spec: the URLPolicy record of section 3 (the type is declared
  outside \<^verbatim>\<open>helpers.go\<close>).
\<close>

record URLPolicy =
  requireParseable :: bool
  allowRelative :: bool
  allowedSchemes :: "string set"
  forceNoFollow :: bool
  noFollowElements :: "string set"

text \<open>
  Modelled from the spec: the Policy record of section 3 (the type is declared outside
  \<^verbatim>\<open>helpers.go\<close>). \<open>elementAttributes\<close> maps an element name to its rules, one per
  attribute name (a later registration for the same element and attribute replaces the
  earlier one); an element with no rule has no entry.
\<close>

record Policy =
  elements :: "string set"
  elementAttributes :: "string \<rightharpoonup> (string \<rightharpoonup> matcher)"
  globalAttributes :: "string \<rightharpoonup> matcher"
  urlPolicy :: URLPolicy

text \<open>
  Modelled from the spec: the policy a builder starts from (section 3, lifecycle), with
  no rule and nothing allowed; nofollow applies to a, area and link (section 4.3).
\<close>

definition NewPolicy :: Policy where
  "NewPolicy = \<lparr>elements = {}, elementAttributes = Map.empty, globalAttributes = Map.empty,
     urlPolicy = \<lparr>requireParseable = False, allowRelative = False, allowedSchemes = {},
       forceNoFollow = False, noFollowElements = {''a'', ''area'', ''link''}\<rparr>\<rparr>"

subsection \<open>The builder\<close>

text \<open>
  Modelled from the spec: the chain \<^verbatim>\<open>AllowAttrs(...).Matching(...)\<close> of section 4.2
  (methods declared outside \<^verbatim>\<open>helpers.go\<close>): the attribute names and the matcher of
  the rules to register.
\<close>

record attrPolicyBuilder =
  attrNames :: "string list"
  regexp :: matcher

text \<open>Modelled from the spec: \<^verbatim>\<open>AllowAttrs(names...)\<close> (section 4.2) starts a chain with no matcher.\<close>

definition AllowAttrs :: "string list \<Rightarrow> attrPolicyBuilder" where
  "AllowAttrs names = \<lparr>attrNames = names, regexp = None\<rparr>"

text \<open>Modelled from the spec: \<^verbatim>\<open>.Matching(matcher)\<close> (section 4.2) sets the matcher of the chain.\<close>

definition Matching :: "regex \<Rightarrow> attrPolicyBuilder \<Rightarrow> attrPolicyBuilder" where
  "Matching re b = b\<lparr>regexp := Some re\<rparr>"

text \<open>
  Modelled from the spec: the registration of one rule, for attribute \<open>a\<close> on element
  \<open>e\<close> (section 4.2: last write wins, no duplicate entries).
\<close>

definition register_rule :: "matcher \<Rightarrow> string \<Rightarrow> string \<Rightarrow> Policy \<Rightarrow> Policy" where
  "register_rule m e a p =
     p\<lparr>elementAttributes := (elementAttributes p)
         (e \<mapsto> (case elementAttributes p e of None \<Rightarrow> Map.empty | Some rules \<Rightarrow> rules)(a \<mapsto> m))\<rparr>"

text \<open>
  Modelled from the spec: \<^verbatim>\<open>.OnElements(names...)\<close> (section 4.2) registers one
  AttributeRule per named element and attribute name; a registered rule admits its
  element.
\<close>

definition OnElements :: "attrPolicyBuilder \<Rightarrow> string list \<Rightarrow> Policy \<Rightarrow> Policy" where
  "OnElements b names p =
     fold (\<lambda>e q. fold (\<lambda>a r. register_rule (regexp b) e a r) (attrNames b) q) names p"

text \<open>
  Modelled from the spec: \<^verbatim>\<open>.Globally()\<close> (section 4.2) registers one global
  AttributeRule per attribute name and admits no element.
\<close>

definition Globally :: "attrPolicyBuilder \<Rightarrow> Policy \<Rightarrow> Policy" where
  "Globally b p =
     p\<lparr>globalAttributes := fold (\<lambda>a g. g(a \<mapsto> regexp b)) (attrNames b) (globalAttributes p)\<rparr>"

text \<open>Modelled from the spec: \<^verbatim>\<open>AllowElements(names...)\<close> (section 4.2) registers an ElementRule for each name.\<close>

definition AllowElements :: "string list \<Rightarrow> Policy \<Rightarrow> Policy" where
  "AllowElements names p = p\<lparr>elements := elements p \<union> set names\<rparr>"

text \<open>
  Modelled from the spec: the four setters of the URLPolicy fields that
  \<^verbatim>\<open>AllowStandardURLs\<close> calls (declared outside \<^verbatim>\<open>helpers.go\<close>; section 3 gives the
  fields). Each flag setter stores its argument; \<^verbatim>\<open>AllowURLSchemes\<close> adds its schemes
  to the allowed set.
\<close>

definition RequireParseableURLs :: "bool \<Rightarrow> Policy \<Rightarrow> Policy" where
  "RequireParseableURLs b p = p\<lparr>urlPolicy := (urlPolicy p)\<lparr>requireParseable := b\<rparr>\<rparr>"

text \<open>Modelled from the spec: the setter of \<open>allowRelative\<close> (section 3).\<close>

definition AllowRelativeURLs :: "bool \<Rightarrow> Policy \<Rightarrow> Policy" where
  "AllowRelativeURLs b p = p\<lparr>urlPolicy := (urlPolicy p)\<lparr>allowRelative := b\<rparr>\<rparr>"

text \<open>Modelled from the spec: the schemes are added to \<open>allowedSchemes\<close> (section 3).\<close>

definition AllowURLSchemes :: "string list \<Rightarrow> Policy \<Rightarrow> Policy" where
  "AllowURLSchemes schemes p =
     p\<lparr>urlPolicy := (urlPolicy p)\<lparr>allowedSchemes := allowedSchemes (urlPolicy p) \<union> set schemes\<rparr>\<rparr>"

text \<open>Modelled from the spec: the setter of \<open>forceNoFollow\<close> (section 3).\<close>

definition RequireNoFollowOnLinks :: "bool \<Rightarrow> Policy \<Rightarrow> Policy" where
  "RequireNoFollowOnLinks b p = p\<lparr>urlPolicy := (urlPolicy p)\<lparr>forceNoFollow := b\<rparr>\<rparr>"

subsection \<open>The helpers of helpers.go\<close>

text \<open>
  A helper is a method on \<^verbatim>\<open>*Policy\<close> whose body is a sequence of calls on the same
  policy: \<open>do_calls\<close> runs the calls in order, each on the policy the one before left.
\<close>

definition do_calls :: "(Policy \<Rightarrow> Policy) list \<Rightarrow> Policy \<Rightarrow> Policy" where
  "do_calls fs p = fold (\<lambda>f q. f q) fs p"

definition AllowStandardURLs :: "Policy \<Rightarrow> Policy" where
  "AllowStandardURLs = do_calls [
     RequireParseableURLs True,
     AllowRelativeURLs True,
     AllowURLSchemes [''mailto'', ''http'', ''https''],
     RequireNoFollowOnLinks True]"

definition AllowStandardAttributes :: "Policy \<Rightarrow> Policy" where
  "AllowStandardAttributes = do_calls [
     Globally (Matching Direction (AllowAttrs [''dir''])),
     Globally (Matching lang_pattern (AllowAttrs [''lang''])),
     Globally (Matching id_pattern (AllowAttrs [''id''])),
     Globally (Matching Paragraph (AllowAttrs [''title'']))]"

definition AllowImages :: "Policy \<Rightarrow> Policy" where
  "AllowImages = do_calls [
     OnElements (Matching ImageAlign (AllowAttrs [''align''])) [''img''],
     OnElements (Matching Paragraph (AllowAttrs [''alt''])) [''img''],
     OnElements (Matching NumberOrPercent (AllowAttrs [''height'', ''width''])) [''img''],
     AllowStandardURLs,
     OnElements (AllowAttrs [''src'']) [''img'']]"

definition AllowLists :: "Policy \<Rightarrow> Policy" where
  "AllowLists = do_calls [
     OnElements (Matching ListType (AllowAttrs [''type''])) [''ol'', ''ul''],
     OnElements (Matching ListType (AllowAttrs [''type''])) [''li''],
     OnElements (Matching Integer (AllowAttrs [''value''])) [''li''],
     AllowElements [''dl'', ''dt'', ''dd'']]"

definition AllowTables :: "Policy \<Rightarrow> Policy" where
  "AllowTables = do_calls [
     OnElements (Matching NumberOrPercent (AllowAttrs [''height'', ''width''])) [''table''],
     OnElements (Matching Paragraph (AllowAttrs [''summary''])) [''table''],
     AllowElements [''caption''],
     OnElements (Matching CellAlign (AllowAttrs [''align''])) [''col'', ''colgroup''],
     OnElements (Matching NumberOrPercent (AllowAttrs [''height'', ''width''])) [''col'', ''colgroup''],
     OnElements (Matching Integer (AllowAttrs [''span''])) [''colgroup'', ''col''],
     OnElements (Matching CellVerticalAlign (AllowAttrs [''valign''])) [''col'', ''colgroup''],
     OnElements (Matching CellAlign (AllowAttrs [''align''])) [''thead'', ''tr''],
     OnElements (Matching CellVerticalAlign (AllowAttrs [''valign''])) [''thead'', ''tr''],
     OnElements (Matching Paragraph (AllowAttrs [''abbr''])) [''td'', ''th''],
     OnElements (Matching CellAlign (AllowAttrs [''align''])) [''td'', ''th''],
     OnElements (Matching Integer (AllowAttrs [''colspan'', ''rowspan''])) [''td'', ''th''],
     OnElements (Matching NamesAndSpaces (AllowAttrs [''headers''])) [''td'', ''th''],
     OnElements (Matching NumberOrPercent (AllowAttrs [''height'', ''width''])) [''td'', ''th''],
     OnElements (Matching scope_pattern (AllowAttrs [''scope''])) [''td'', ''th''],
     OnElements (Matching CellVerticalAlign (AllowAttrs [''valign''])) [''td'', ''th''],
     OnElements (Matching nowrap_pattern (AllowAttrs [''nowrap''])) [''td'', ''th''],
     OnElements (Matching CellAlign (AllowAttrs [''align''])) [''tbody'', ''tfoot''],
     OnElements (Matching CellVerticalAlign (AllowAttrs [''valign''])) [''tbody'', ''tfoot'']]"

subsection \<open>Sequences of builder calls\<close>

text \<open>
  Modelled from the spec: the builder surface of sections 2 and 4.2, one constructor per
  call a caller can make: the three primitive registrations and the five helpers.
\<close>

datatype builder_call =
    CallAllowElements "string list"
  | CallOnElements "string list" matcher "string list"
  | CallGlobally "string list" matcher
  | CallAllowStandardURLs
  | CallAllowStandardAttributes
  | CallAllowImages
  | CallAllowLists
  | CallAllowTables

fun apply_call :: "builder_call \<Rightarrow> Policy \<Rightarrow> Policy" where
  "apply_call (CallAllowElements names) = AllowElements names"
| "apply_call (CallOnElements attrs m names) = OnElements \<lparr>attrNames = attrs, regexp = m\<rparr> names"
| "apply_call (CallGlobally attrs m) = Globally \<lparr>attrNames = attrs, regexp = m\<rparr>"
| "apply_call CallAllowStandardURLs = AllowStandardURLs"
| "apply_call CallAllowStandardAttributes = AllowStandardAttributes"
| "apply_call CallAllowImages = AllowImages"
| "apply_call CallAllowLists = AllowLists"
| "apply_call CallAllowTables = AllowTables"

definition apply_calls :: "builder_call list \<Rightarrow> Policy \<Rightarrow> Policy" where
  "apply_calls cs p = fold apply_call cs p"

text \<open>
  The Images helper in the words of the specification (section 4.2): align, alt, height
  and width scoped to img, the standard-URL policy, and src on img with no matcher.
\<close>

definition AllowImages_spec :: "builder_call list" where
  "AllowImages_spec = [
     CallOnElements [''align''] (Some ImageAlign) [''img''],
     CallOnElements [''alt''] (Some Paragraph) [''img''],
     CallOnElements [''height'', ''width''] (Some NumberOrPercent) [''img''],
     CallAllowStandardURLs,
     CallOnElements [''src''] None [''img'']]"

subsection \<open>The query side\<close>

text \<open>
  Modelled from the spec: admissibility (section 3): an element is admissible when it has
  an ElementRule or an AttributeRule is scoped to it.
\<close>

definition admissible :: "Policy \<Rightarrow> string \<Rightarrow> bool" where
  "admissible p e =
     (e \<in> elements p \<or> (case elementAttributes p e of None \<Rightarrow> False | Some rules \<Rightarrow> True))"

text \<open>Modelled from the spec: the element-scoped rule for an attribute (section 4.4, step 2).\<close>

definition scoped_rule :: "Policy \<Rightarrow> string \<Rightarrow> string \<Rightarrow> matcher option" where
  "scoped_rule p e a = (case elementAttributes p e of None \<Rightarrow> None | Some rules \<Rightarrow> rules a)"

text \<open>
  Modelled from the spec: rule resolution (section 4.4, step 2): the element-scoped rule,
  else the global one.
\<close>

definition resolve :: "Policy \<Rightarrow> string \<Rightarrow> string \<Rightarrow> matcher option" where
  "resolve p e a = (case scoped_rule p e a of Some m \<Rightarrow> Some m | None \<Rightarrow> globalAttributes p a)"

text \<open>
  Modelled from the spec: running a matcher (section 4.1). A pattern matcher accepts where
  \<open>MatchString\<close> does and leaves the value as it is; an absent matcher accepts.
\<close>

definition accepts :: "unicode_tables \<Rightarrow> matcher \<Rightarrow> rune list \<Rightarrow> bool" where
  "accepts ut m v = (case m of None \<Rightarrow> True | Some re \<Rightarrow> MatchString ut re v)"

text \<open>
  Modelled from the spec: the scheme of a URL (section 4.3, step 2), by the syntax of
  RFC 3986: a letter, then letters, digits, plus, minus and dot, up to a colon. A value
  with no scheme is relative.
\<close>

definition is_ascii_letter :: "rune \<Rightarrow> bool" where
  "is_ascii_letter c = (65 \<le> c \<and> c \<le> 90 \<or> 97 \<le> c \<and> c \<le> 122)"

text \<open>Modelled from the spec: the runes a scheme is made of (section 4.3, step 2).\<close>

definition is_scheme_rune :: "rune \<Rightarrow> bool" where
  "is_scheme_rune c = (is_ascii_letter c \<or> is_ascii_digit c \<or> c = 43 \<or> c = 45 \<or> c = 46)"

text \<open>Modelled from the spec: scheme extraction (section 4.3, step 2).\<close>

definition url_scheme :: "rune list \<Rightarrow> rune list option" where
  "url_scheme raw =
     (case (takeWhile is_scheme_rune raw, dropWhile is_scheme_rune raw) of
        (c # s, k # rest) \<Rightarrow> if is_ascii_letter c \<and> k = 58 then Some (c # s) else None
      | _ \<Rightarrow> None)"

text \<open>
  Modelled from the spec: URL admission (section 4.3, steps 1 and 2). The structural
  parse is the standard library's; \<open>parses\<close> says which values it parses.
\<close>

definition admit :: "(rune list \<Rightarrow> bool) \<Rightarrow> URLPolicy \<Rightarrow> rune list \<Rightarrow> bool" where
  "admit parses u raw =
     (if requireParseable u \<and> \<not> parses raw then False
      else case url_scheme raw of
             None \<Rightarrow> allowRelative u
           | Some scheme \<Rightarrow>
               map ascii_lower scheme \<in> (\<lambda>s. map ascii_lower (runes s)) ` allowedSchemes u)"

text \<open>
  Modelled from the spec: the attributes an accepted URL asks to inject (section 4.3,
  step 3): the token nofollow in rel, on the nofollow elements when nofollow is forced.
\<close>

definition injected :: "URLPolicy \<Rightarrow> string \<Rightarrow> (string \<times> string) list" where
  "injected u e = (if forceNoFollow u \<and> e \<in> noFollowElements u then [(''rel'', ''nofollow'')] else [])"

text \<open>
  Modelled from the spec: the URL-bearing attributes (section 4.4, step 3, which names
  src and href).
\<close>

definition url_bearing :: "string \<Rightarrow> bool" where
  "url_bearing a = (a = ''href'' \<or> a = ''src'')"

text \<open>Modelled from the spec: the verdict of \<^verbatim>\<open>evaluate\<close> (section 6).\<close>

datatype verdict = Keep "rune list" "(string \<times> string) list" | Drop

text \<open>Modelled from the spec: \<^verbatim>\<open>evaluate\<close> (section 4.4, steps 1 to 4).\<close>

definition evaluate ::
  "unicode_tables \<Rightarrow> (rune list \<Rightarrow> bool) \<Rightarrow> Policy \<Rightarrow> string \<Rightarrow> string \<Rightarrow> rune list \<Rightarrow> verdict" where
  "evaluate ut parses p e a v =
     (if admissible p e then
        (case resolve p e a of
           None \<Rightarrow> Drop
         | Some m \<Rightarrow>
             if accepts ut m v then
               (if url_bearing a then
                  (if admit parses (urlPolicy p) v then Keep v (injected (urlPolicy p) e) else Drop)
                else Keep v [])
             else Drop)
      else Drop)"



subsection \<open>The standard-URL settings\<close>



subsection \<open>Overlaying one policy on another\<close>

text \<open>
  \<open>overlay p q\<close> is \<open>p\<close> with everything \<open>q\<close> registers written over it: the
  union of the element sets and of the schemes, the rules of \<open>q\<close> over those of \<open>p\<close>,
  a flag set when either sets it. It is the tool of the idempotence proof: a builder
  call on an overlay is the overlay of the call.
\<close>

definition overlay_rules ::
  "(string \<rightharpoonup> (string \<rightharpoonup> matcher)) \<Rightarrow> (string \<rightharpoonup> (string \<rightharpoonup> matcher)) \<Rightarrow> (string \<rightharpoonup> (string \<rightharpoonup> matcher))" where
  "overlay_rules f g =
     (\<lambda>e. case g e of
            None \<Rightarrow> f e
          | Some later \<Rightarrow> Some ((case f e of None \<Rightarrow> Map.empty | Some rules \<Rightarrow> rules) ++ later))"

definition overlay :: "Policy \<Rightarrow> Policy \<Rightarrow> Policy" where
  "overlay p q =
     \<lparr>elements = elements p \<union> elements q,
      elementAttributes = overlay_rules (elementAttributes p) (elementAttributes q),
      globalAttributes = globalAttributes p ++ globalAttributes q,
      urlPolicy =
        \<lparr>requireParseable = (requireParseable (urlPolicy p) \<or> requireParseable (urlPolicy q)),
         allowRelative = (allowRelative (urlPolicy p) \<or> allowRelative (urlPolicy q)),
         allowedSchemes = allowedSchemes (urlPolicy p) \<union> allowedSchemes (urlPolicy q),
         forceNoFollow = (forceNoFollow (urlPolicy p) \<or> forceNoFollow (urlPolicy q)),
         noFollowElements = noFollowElements (urlPolicy p)\<rparr>\<rparr>"

text \<open>A builder call acts on the right of an overlay: calling it on \<open>overlay p q\<close> is calling it on \<open>q\<close>.\<close>

definition acts_on_right :: "(Policy \<Rightarrow> Policy) \<Rightarrow> bool" where
  "acts_on_right f = (\<forall>p q. f (overlay p q) = overlay p (f q))"

section \<open>Properties of the matchers\<close>

lemma star_run_nonempty: "star_run f p \<noteq> []"
  by (subst star_run.simps) (rule list.distinct)

lemma match_at_beginning: "step ut re (True, s) \<noteq> [] \<Longrightarrow> MatchString ut re s"
  by (simp add: MatchString_def starts_def)

lemma step_Star_nonempty: "step ut (Star r) p \<noteq> []"
  by (simp add: star_run_nonempty)

lemma step_Plus_nonempty: "step ut (Plus r) p \<noteq> [] \<longleftrightarrow> step ut r p \<noteq> []"
proof (cases "step ut r p")
  case Nil
  then show ?thesis by simp
next
  case (Cons q qs)
  then show ?thesis by (simp add: star_run_nonempty)
qed

lemma step_Alt_Empty_nonempty: "step ut (Alt Empty r) p \<noteq> []"
  by (simp only: step.simps remdups_eq_nil_iff append_is_Nil_conv) simp

lemma take_rune_nonempty:
  "take_rune ok p \<noteq> [] \<longleftrightarrow> (case snd p of [] \<Rightarrow> False | c # t \<Rightarrow> ok c)"
  by (simp add: take_rune_def split: list.splits)

lemma MatchString_Nil: "MatchString ut re [] = (step ut re (True, []) \<noteq> [])"
  unfolding MatchString_def starts_def by simp

lemma MatchString_Cons:
  "MatchString ut re (c # t) =
     (step ut re (True, c # t) \<noteq> [] \<or> list_ex (\<lambda>p. step ut re p \<noteq> []) (later_starts (c # t)))"
  unfolding MatchString_def starts_def by (rule list_ex_Cons_iff)

subsection \<open>The matcher computes the meaning of the pattern\<close>

lemma set_take_rune: "set (take_rune ok p) = consume ok `` {p}"
  by (cases p) (auto simp add: take_rune_def consume_def split: list.splits)

lemma consuming_consume: "consuming (consume ok)"
  by (auto simp add: consuming_def consume_def)

lemma consuming_Id: "consuming Id"
  by (simp add: consuming_def)

lemma consuming_relcomp: "consuming R \<Longrightarrow> consuming S \<Longrightarrow> consuming (R O S)"
  unfolding consuming_def by (fastforce)

lemma consuming_Un: "consuming R \<Longrightarrow> consuming S \<Longrightarrow> consuming (R \<union> S)"
  unfolding consuming_def by blast

lemma consuming_rtrancl:
  assumes "consuming R"
  shows "consuming (R\<^sup>*)"
  unfolding consuming_def
proof (intro allI impI)
  fix p q
  assume "(p, q) \<in> R\<^sup>*"
  then show "q = p \<or> length (snd q) < length (snd p)"
  proof (induction rule: rtrancl_induct)
    case base
    show ?case by simp
  next
    case (step y z)
    then show ?case using assms unfolding consuming_def by (metis less_trans)
  qed
qed

lemma consuming_relpow: "consuming R \<Longrightarrow> consuming (R ^^ n)"
  by (induction n) (simp_all add: consuming_Id consuming_relcomp)

lemma consuming_UN: "(\<And>j. j \<in> J \<Longrightarrow> consuming (F j)) \<Longrightarrow> consuming (\<Union>j\<in>J. F j)"
  unfolding consuming_def by blast

lemma consuming_Bol: "consuming {(p, p) | p. fst p}"
  by (auto simp add: consuming_def)

lemma consuming_Eol: "consuming {(p, p) | p. snd p = []}"
  by (auto simp add: consuming_def)

lemma consuming_sem: "consuming (sem ut r)"
proof (induction r)
  case Bol
  show ?case unfolding sem.simps by (rule consuming_Bol)
next
  case Eol
  show ?case unfolding sem.simps by (rule consuming_Eol)
next
  case (Rep n m r)
  then show ?case
    by (cases m) (simp_all add: consuming_relpow consuming_UN)
qed (simp_all add: consuming_consume consuming_Id consuming_relcomp consuming_Un
    consuming_rtrancl)

lemma rtrancl_first_proper_step:
  assumes "(p, x) \<in> R\<^sup>*"
  shows "x = p \<or> (\<exists>q. (p, q) \<in> R \<and> q \<noteq> p \<and> (q, x) \<in> R\<^sup>*)"
  using assms
proof (induction rule: converse_rtrancl_induct)
  case base
  show ?case by simp
next
  case (step y z)
  show ?case
  proof (cases "z = y")
    case True
    then show ?thesis using step.IH by simp
  next
    case False
    then show ?thesis using step.hyps by blast
  qed
qed

lemma UN_shift: "(\<Union>j\<in>{0..Suc k}. F j) = F 0 \<union> (\<Union>j\<in>{0..k}. F (Suc j))"
  unfolding atLeast0_atMost_Suc_eq_insert_0
  by (simp add: image_image del: image_Suc_atLeastAtMost)

lemma Bol_image: "{(q, q) | q. fst q} `` {p} = (if fst p then {p} else {})"
  by (cases p) (simp add: Image_def)

lemma Eol_image: "{(q, q) | q. snd q = []} `` {p} = (if snd p = [] then {p} else {})"
  by (cases p) (simp add: Image_def)

lemma set_star_run:
  assumes f: "\<And>p. set (f p) = R `` {p}" and R: "consuming R"
  shows "set (star_run f p) = R\<^sup>* `` {p}"
proof (induction "length (snd p)" arbitrary: p rule: less_induct)
  case less
  let ?shorter = "{q. (p, q) \<in> R \<and> length (snd q) < length (snd p)}"
  have "set (filter (\<lambda>q. length (snd q) < length (snd p)) (f p)) = ?shorter"
    unfolding set_filter f by blast
  moreover have "set (star_run f p) =
      insert p (\<Union>q\<in>set (filter (\<lambda>q. length (snd q) < length (snd p)) (f p)). set (star_run f q))"
    by (subst star_run.simps) simp
  ultimately have unfold: "set (star_run f p) = insert p (\<Union>q\<in>?shorter. set (star_run f q))"
    by (simp only:)
  have IH: "set (star_run f q) = R\<^sup>* `` {q}" if "q \<in> ?shorter" for q
    using that less [of q] by blast
  have "(\<Union>q\<in>?shorter. set (star_run f q)) = (\<Union>q\<in>?shorter. R\<^sup>* `` {q})"
    using IH by (rule SUP_cong [OF refl])
  then have "set (star_run f p) = insert p (\<Union>q\<in>?shorter. R\<^sup>* `` {q})"
    using unfold by (simp only:)
  also have "\<dots> = R\<^sup>* `` {p}"
  proof (intro equalityI subsetI)
    fix x
    assume "x \<in> insert p (\<Union>q\<in>?shorter. R\<^sup>* `` {q})"
    then consider "x = p" | q where "(p, q) \<in> R" "(q, x) \<in> R\<^sup>*" by blast
    then show "x \<in> R\<^sup>* `` {p}"
    proof cases
      case 1
      then show ?thesis by simp
    next
      case 2
      then have "(p, x) \<in> R\<^sup>*" by (rule converse_rtrancl_into_rtrancl)
      then show ?thesis by simp
    qed
  next
    fix x
    assume "x \<in> R\<^sup>* `` {p}"
    then have "(p, x) \<in> R\<^sup>*" by simp
    then have "x = p \<or> (\<exists>q. (p, q) \<in> R \<and> q \<noteq> p \<and> (q, x) \<in> R\<^sup>*)"
      by (rule rtrancl_first_proper_step)
    then show "x \<in> insert p (\<Union>q\<in>?shorter. R\<^sup>* `` {q})"
    proof (elim disjE exE conjE)
      assume "x = p"
      then show ?thesis by simp
    next
      fix q
      assume q: "(p, q) \<in> R" "q \<noteq> p" "(q, x) \<in> R\<^sup>*"
      then have "length (snd q) < length (snd p)"
        using R unfolding consuming_def by blast
      then have "q \<in> ?shorter" using q(1) by simp
      moreover have "x \<in> R\<^sup>* `` {q}" using q(3) by simp
      ultimately show ?thesis by blast
    qed
  qed
  finally show ?case .
qed

lemma set_rep_exact:
  assumes f: "\<And>p. set (f p) = R `` {p}"
  shows "set (rep_exact f n p) = (R ^^ n) `` {p}"
proof (induction n arbitrary: p)
  case 0
  show ?case by simp
next
  case (Suc n)
  have "set (rep_exact f (Suc n) p) = (\<Union>q\<in>R `` {p}. (R ^^ n) `` {q})"
    by (simp add: f Suc.IH)
  also have "\<dots> = (R O R ^^ n) `` {p}" by blast
  also have "\<dots> = (R ^^ Suc n) `` {p}" by (simp add: relpow_commute)
  finally show ?case .
qed

lemma set_rep_upto:
  assumes f: "\<And>p. set (f p) = R `` {p}"
  shows "set (rep_upto f k p) = (\<Union>j\<in>{0..k}. R ^^ j) `` {p}"
proof (induction k arbitrary: p)
  case 0
  show ?case by simp
next
  case (Suc k)
  have "set (rep_upto f (Suc k) p) = insert p (\<Union>q\<in>R `` {p}. (\<Union>j\<in>{0..k}. R ^^ j) `` {q})"
    by (simp add: f Suc.IH)
  also have "\<dots> = insert p ((\<Union>j\<in>{0..k}. R O R ^^ j) `` {p})" by blast
  also have "\<dots> = insert p ((\<Union>j\<in>{0..k}. R ^^ Suc j) `` {p})"
    by (simp add: relpow_commute)
  also have "\<dots> = (\<Union>j\<in>{0..Suc k}. R ^^ j) `` {p}"
    unfolding UN_shift [of "\<lambda>j. R ^^ j" k] by auto
  finally show ?case .
qed

theorem step_computes_sem: "set (step ut r p) = sem ut r `` {p}"
proof (induction r arbitrary: p)
  case Empty
  show ?case by simp
next
  case (Lit c)
  show ?case by (simp add: set_take_rune)
next
  case (LitFold c)
  show ?case by (simp add: set_take_rune)
next
  case (Class negated items)
  show ?case by (simp add: set_take_rune)
next
  case Bol
  show ?case unfolding step.simps sem.simps Bol_image by simp
next
  case Eol
  show ?case unfolding step.simps sem.simps Eol_image by simp
next
  case (Cat r1 r2)
  have "set (step ut (Cat r1 r2) p) = (\<Union>q\<in>sem ut r1 `` {p}. sem ut r2 `` {q})"
    using Cat by simp
  also have "\<dots> = (sem ut r1 O sem ut r2) `` {p}" by blast
  finally show ?case by simp
next
  case (Alt r1 r2)
  then show ?case by auto
next
  case (Star r)
  then show ?case by (simp add: set_star_run consuming_sem)
next
  case (Plus r)
  have "set (step ut (Plus r) p) = (\<Union>q\<in>sem ut r `` {p}. (sem ut r)\<^sup>* `` {q})"
    using Plus by (simp add: set_star_run consuming_sem)
  also have "\<dots> = (sem ut r O (sem ut r)\<^sup>*) `` {p}" by blast
  finally show ?case by simp
next
  case (Opt r)
  then show ?case by auto
next
  case (Rep n m r)
  show ?case
  proof (cases m)
    case None
    then show ?thesis using Rep by (simp add: set_rep_exact)
  next
    case (Some k)
    have "set (step ut (Rep n (Some k) r) p)
        = (\<Union>q\<in>(sem ut r ^^ n) `` {p}. (\<Union>j\<in>{0..k - n}. sem ut r ^^ j) `` {q})"
      using Rep by (simp add: set_rep_exact set_rep_upto)
    also have "\<dots> = (\<Union>j\<in>{0..k - n}. sem ut r ^^ n O sem ut r ^^ j) `` {p}" by blast
    also have "\<dots> = (\<Union>j\<in>{0..k - n}. sem ut r ^^ (n + j)) `` {p}"
      by (simp add: relpow_add)
    finally show ?thesis using Some by simp
  qed
qed

lemma set_later_starts:
  "set (later_starts s) = {(False, post) | pre post. s = pre @ post \<and> pre \<noteq> []}"
proof (induction s)
  case Nil
  show ?case by simp
next
  case (Cons c t)
  show ?case
  proof (intro equalityI subsetI)
    fix x
    assume "x \<in> set (later_starts (c # t))"
    then have "x = (False, t) \<or> x \<in> set (later_starts t)" by simp
    then show "x \<in> {(False, post) | pre post. c # t = pre @ post \<and> pre \<noteq> []}"
    proof
      assume "x = (False, t)"
      then have "x = (False, t) \<and> c # t = [c] @ t \<and> [c] \<noteq> []" by simp
      then show ?thesis by blast
    next
      assume "x \<in> set (later_starts t)"
      then obtain pre post where "x = (False, post)" "t = pre @ post" "pre \<noteq> []"
        using Cons.IH by blast
      then have "x = (False, post) \<and> c # t = (c # pre) @ post \<and> c # pre \<noteq> []" by simp
      then show ?thesis by blast
    qed
  next
    fix x
    assume "x \<in> {(False, post) | pre post. c # t = pre @ post \<and> pre \<noteq> []}"
    then obtain pre post where x: "x = (False, post)" "c # t = pre @ post" "pre \<noteq> []"
      by blast
    then obtain pre' where pre: "pre = c # pre'" "t = pre' @ post"
      by (cases pre) simp_all
    show "x \<in> set (later_starts (c # t))"
    proof (cases "pre' = []")
      case True
      then show ?thesis using x pre by simp
    next
      case False
      then have "x \<in> set (later_starts t)" using Cons.IH x pre by blast
      then show ?thesis by simp
    qed
  qed
qed

lemma set_starts: "set (starts s) = {(pre = [], post) | pre post. s = pre @ post}"
proof (intro equalityI subsetI)
  fix x
  assume "x \<in> set (starts s)"
  then have "x = (True, s) \<or> x \<in> set (later_starts s)" by (simp add: starts_def)
  then show "x \<in> {(pre = [], post) | pre post. s = pre @ post}"
  proof
    assume "x = (True, s)"
    then have "x = (([]::rune list) = [], s) \<and> s = [] @ s" by simp
    then show ?thesis by blast
  next
    assume "x \<in> set (later_starts s)"
    then obtain pre post where "x = (False, post)" "s = pre @ post" "pre \<noteq> []"
      unfolding set_later_starts by blast
    then have "x = (pre = [], post) \<and> s = pre @ post" by simp
    then show ?thesis by blast
  qed
next
  fix x
  assume "x \<in> {(pre = [], post) | pre post. s = pre @ post}"
  then obtain pre post where x: "x = (pre = [], post)" "s = pre @ post" by blast
  show "x \<in> set (starts s)"
  proof (cases "pre = []")
    case True
    then show ?thesis using x by (simp add: starts_def)
  next
    case False
    then have "x \<in> set (later_starts s)" unfolding set_later_starts using x by blast
    then show ?thesis by (simp add: starts_def)
  qed
qed

theorem MatchString_iff_contains_match:
  "MatchString ut re s = (\<exists>pre post q. s = pre @ post \<and> ((pre = [], post), q) \<in> sem ut re)"
proof -
  have "MatchString ut re s = (\<exists>p\<in>set (starts s). set (step ut re p) \<noteq> {})"
    by (simp add: MatchString_def list_ex_iff)
  also have "\<dots> = (\<exists>p\<in>set (starts s). \<exists>q. (p, q) \<in> sem ut re)"
    unfolding step_computes_sem by blast
  also have "\<dots> = (\<exists>pre post q. s = pre @ post \<and> ((pre = [], post), q) \<in> sem ut re)"
    unfolding set_starts by blast
  finally show ?thesis .
qed

subsection \<open>Integer\<close>

lemma digit_class: "class_has ut False [rng CHR ''0'' CHR ''9''] c = is_ascii_digit c"
  by (simp add: class_has_def rng_def is_ascii_digit_def)

lemma step_Integer:
  "step ut Integer (b, s) \<noteq> [] \<longleftrightarrow> (case s of [] \<Rightarrow> False | c # t \<Rightarrow> is_ascii_digit c)"
  unfolding Integer_def cls_def step_Plus_nonempty
  by (simp add: take_rune_nonempty digit_class split: list.splits)

lemma later_starts_Integer:
  "list_ex (\<lambda>p. step ut Integer p \<noteq> []) (later_starts s) = list_ex is_ascii_digit (tl s)"
proof (induction s)
  case Nil
  show ?case by simp
next
  case (Cons c t)
  have "list_ex (\<lambda>p. step ut Integer p \<noteq> []) (later_starts (c # t))
      = (step ut Integer (False, t) \<noteq> [] \<or> list_ex is_ascii_digit (tl t))"
    using Cons.IH by simp
  also have "\<dots> = list_ex is_ascii_digit t"
    by (cases t) (simp_all add: step_Integer)
  finally show ?case by simp
qed

lemma Integer_matches_digit: "MatchString ut Integer s = list_ex is_ascii_digit s"
proof (cases s)
  case Nil
  then show ?thesis unfolding Nil MatchString_Nil step_Integer by simp
next
  case (Cons c t)
  show ?thesis unfolding Cons MatchString_Cons later_starts_Integer step_Integer by simp
qed

text \<open>
  C10. The pattern \<^verbatim>\<open>[0-9]+\<close> has no anchors: \<open>Integer\<close> accepts a value exactly when
  an ASCII digit stands somewhere in it. So it accepts \<^verbatim>\<open>2x\<close> and \<^verbatim>\<open>-5\<close>, values with
  other characters beside the digit.
\<close>

theorem Integer_accepts_iff_contains_digit:
  "MatchString ut Integer s = list_ex is_ascii_digit s
   \<and> MatchString ut Integer (runes ''2x'')
   \<and> MatchString ut Integer (runes ''-5'')"
  by (simp add: Integer_matches_digit runes_def is_ascii_digit_def)

subsection \<open>Paragraph\<close>

lemma Paragraph_accepts_every_value: "MatchString ut Paragraph s"
  unfolding Paragraph_def cls_def by (rule match_at_beginning) (rule step_Star_nonempty)

text \<open>
  C1. The claim is that the free-text matcher rejects every value that holds
  \<^verbatim>\<open><\<close> or \<^verbatim>\<open>>\<close>. The pattern is a starred class with no anchors, so the empty
  match at the beginning of any value is a match: \<open>Paragraph\<close> accepts \<^verbatim>\<open><script>\<close>,
  a value that holds both characters.
\<close>

theorem Paragraph_accepts_markup:
  "MatchString ut Paragraph (runes ''<script>'')
   \<and> of_char CHR ''<'' \<in> set (runes ''<script>'')
   \<and> of_char CHR ''>'' \<in> set (runes ''<script>'')"
  by (simp add: Paragraph_accepts_every_value runes_def)

subsection \<open>nowrap\<close>

lemma nowrap_accepts_every_value: "MatchString ut nowrap_pattern s"
  unfolding nowrap_pattern_def alts.simps
  by (rule match_at_beginning) (rule step_Alt_Empty_nonempty)

text \<open>
  C5. The claim is that the nowrap matcher accepts a value exactly when it is empty or
  the token nowrap. The pattern \<^verbatim>\<open>(?i)|nowrap\<close> has no anchors and its first branch
  is empty, so it matches at the beginning of any value: it accepts \<^verbatim>\<open>yes\<close>, which is
  neither empty nor the token.
\<close>

theorem nowrap_accepts_other_value:
  "MatchString ut nowrap_pattern (runes ''yes'') \<and> \<not> is_empty_or_nowrap (runes ''yes'')"
  by (simp add: nowrap_accepts_every_value is_empty_or_nowrap_def runes_def)

subsection \<open>ISO8601\<close>

lemma ISO8601_rejects_timestamp: "\<not> MatchString ut ISO8601 (runes ''2014-05-20T10:00:00Z'')"
  by code_simp

lemma ISO8601_rejects_month_13: "\<not> MatchString ut ISO8601 (runes ''2014-13-40'')"
  by code_simp

lemma ISO8601_accepts_year: "MatchString ut ISO8601 (runes ''2014'')"
  by code_simp

lemma ISO8601_accepts_basic_timestamp: "MatchString ut ISO8601 (runes ''20140520T10:0000Z'')"
  by code_simp

text \<open>
  C4. The claim is that \<open>ISO8601\<close> accepts \<^verbatim>\<open>2014-05-20T10:00:00Z\<close>, rejects
  \<^verbatim>\<open>2014-13-40\<close> and accepts \<^verbatim>\<open>2014\<close>. The pattern as written in Go lets the day
  follow the month, and the seconds follow the minutes, with nothing in between, so
  it rejects the timestamp in the extended format; the other two verdicts are as claimed.
\<close>

theorem ISO8601_verdicts:
  "\<not> MatchString ut ISO8601 (runes ''2014-05-20T10:00:00Z'')
   \<and> \<not> MatchString ut ISO8601 (runes ''2014-13-40'')
   \<and> MatchString ut ISO8601 (runes ''2014'')"
  using ISO8601_rejects_timestamp ISO8601_rejects_month_13 ISO8601_accepts_year by blast

section \<open>Properties of the policy\<close>

lemma do_calls_Nil: "do_calls [] p = p"
  by (simp add: do_calls_def)

lemma do_calls_Cons: "do_calls (f # fs) p = do_calls fs (f p)"
  by (simp add: do_calls_def)


lemma scoped_rule_register_rule:
  "scoped_rule (register_rule m e a p) e' a' =
     (if e' = e \<and> a' = a then Some m else scoped_rule p e' a')"
  by (simp add: scoped_rule_def register_rule_def split: option.splits)

lemma admissible_register_rule:
  "admissible (register_rule m e a p) e' = (e' = e \<or> admissible p e')"
  by (auto simp add: admissible_def register_rule_def)


lemma scoped_rule_fold_register:
  "scoped_rule (fold (\<lambda>a r. register_rule m e a r) as p) e' a' =
     (if e' = e \<and> a' \<in> set as then Some m else scoped_rule p e' a')"
  by (induction as arbitrary: p) (auto simp add: scoped_rule_register_rule)

lemma admissible_fold_register:
  "admissible (fold (\<lambda>a r. register_rule m e a r) as p) e' =
     (e' = e \<and> as \<noteq> [] \<or> admissible p e')"
  by (induction as arbitrary: p) (auto simp add: admissible_register_rule)


lemma scoped_rule_OnElements:
  "scoped_rule (OnElements b names p) e a =
     (if e \<in> set names \<and> a \<in> set (attrNames b) then Some (regexp b) else scoped_rule p e a)"
  unfolding OnElements_def
  by (induction names arbitrary: p) (auto simp add: scoped_rule_fold_register)

lemma admissible_OnElements:
  "admissible (OnElements b names p) e =
     (e \<in> set names \<and> attrNames b \<noteq> [] \<or> admissible p e)"
  unfolding OnElements_def
  by (induction names arbitrary: p) (auto simp add: admissible_fold_register)

lemma fold_upd_apply:
  "fold (\<lambda>a g. g(a \<mapsto> m)) as g0 a' = (if a' \<in> set as then Some m else g0 a')"
  by (induction as arbitrary: g0) auto

lemma Globally_frame:
  "elements (Globally b p) = elements p"
  "elementAttributes (Globally b p) = elementAttributes p"
  "urlPolicy (Globally b p) = urlPolicy p"
  by (simp_all add: Globally_def)

lemma globalAttributes_Globally:
  "globalAttributes (Globally b p) a =
     (if a \<in> set (attrNames b) then Some (regexp b) else globalAttributes p a)"
  by (simp add: Globally_def fold_upd_apply)

lemma scoped_rule_Globally: "scoped_rule (Globally b p) e a = scoped_rule p e a"
  by (simp add: scoped_rule_def Globally_frame)

lemma admissible_Globally: "admissible (Globally b p) e = admissible p e"
  by (simp add: admissible_def Globally_frame)

lemma AllowElements_frame:
  "elementAttributes (AllowElements names p) = elementAttributes p"
  "globalAttributes (AllowElements names p) = globalAttributes p"
  "urlPolicy (AllowElements names p) = urlPolicy p"
  by (simp_all add: AllowElements_def)

lemma scoped_rule_AllowElements: "scoped_rule (AllowElements names p) e a = scoped_rule p e a"
  by (simp add: scoped_rule_def AllowElements_frame)

lemma admissible_AllowElements:
  "admissible (AllowElements names p) e = (e \<in> set names \<or> admissible p e)"
  by (auto simp add: admissible_def AllowElements_def)

lemma builder_simps:
  "attrNames (Matching re b) = attrNames b"
  "regexp (Matching re b) = Some re"
  "attrNames (AllowAttrs names) = names"
  "regexp (AllowAttrs names) = None"
  by (simp_all add: Matching_def AllowAttrs_def)

lemma td_colspan: "scoped_rule (AllowTables p) ''td'' ''colspan'' = Some (Some Integer)"
  unfolding AllowTables_def
  by (simp add: do_calls_Cons do_calls_Nil scoped_rule_OnElements scoped_rule_AllowElements builder_simps)

lemma td_admissible: "admissible (AllowTables p) ''td''"
  unfolding AllowTables_def
  by (simp add: do_calls_Cons do_calls_Nil admissible_OnElements admissible_AllowElements builder_simps)

text \<open>
  C6. On a policy on which \<open>AllowTables\<close> has been called, whatever the policy was
  before, \<^verbatim>\<open>evaluate("td", "colspan", "2")\<close> keeps the value 2 with nothing injected and
  \<^verbatim>\<open>evaluate("td", "colspan", "two")\<close> drops the attribute: colspan on td is guarded by
  \<open>Integer\<close>.
\<close>

theorem AllowTables_td_colspan:
  "evaluate ut parses (AllowTables p) ''td'' ''colspan'' (runes ''2'') = Keep (runes ''2'') []
   \<and> evaluate ut parses (AllowTables p) ''td'' ''colspan'' (runes ''two'') = Drop
   \<and> scoped_rule (AllowTables p) ''td'' ''colspan'' = Some (Some Integer)"
  by (simp add: evaluate_def td_admissible resolve_def td_colspan accepts_def url_bearing_def
      Integer_matches_digit runes_def is_ascii_digit_def)

text \<open>The attributes \<open>Integer\<close> guards, and a value with a digit and another character on one of them.\<close>

lemma Integer_guarded_attributes:
  "scoped_rule (AllowTables p) ''td'' ''colspan'' = Some (Some Integer)"
  "scoped_rule (AllowTables p) ''th'' ''colspan'' = Some (Some Integer)"
  "scoped_rule (AllowTables p) ''td'' ''rowspan'' = Some (Some Integer)"
  "scoped_rule (AllowTables p) ''th'' ''rowspan'' = Some (Some Integer)"
  "scoped_rule (AllowTables p) ''col'' ''span'' = Some (Some Integer)"
  "scoped_rule (AllowTables p) ''colgroup'' ''span'' = Some (Some Integer)"
  "scoped_rule (AllowLists p) ''li'' ''value'' = Some (Some Integer)"
  unfolding AllowTables_def AllowLists_def
  by (simp_all add: do_calls_Cons do_calls_Nil scoped_rule_OnElements scoped_rule_AllowElements
      builder_simps)

lemma td_colspan_keeps_2x:
  "evaluate ut parses (AllowTables p) ''td'' ''colspan'' (runes ''2x'') = Keep (runes ''2x'') []"
  by (simp add: evaluate_def td_admissible resolve_def td_colspan accepts_def url_bearing_def
      Integer_matches_digit runes_def is_ascii_digit_def)

subsection \<open>Calling a sequence twice\<close>


lemma overlay_NewPolicy: "overlay p NewPolicy = p"
  by (simp add: overlay_def NewPolicy_def overlay_rules_def)

lemma map_add_absorb: "(m ++ n) ++ n = m ++ n"
  by (rule ext) (simp add: map_add_def split: option.splits)

lemma map_add_same: "n ++ n = n"
  by (rule ext) (simp add: map_add_def split: option.splits)

lemma overlay_rules_absorb: "overlay_rules (overlay_rules f g) g = overlay_rules f g"
  by (rule ext) (simp add: overlay_rules_def map_add_absorb map_add_same split: option.splits)

lemma overlay_absorb: "overlay (overlay p d) d = overlay p d"
  by (simp add: overlay_def overlay_rules_absorb map_add_absorb Un_assoc)

lemma acts_AllowElements: "acts_on_right (AllowElements names)"
  by (simp add: acts_on_right_def AllowElements_def overlay_def Un_assoc)

lemma overlay_rules_register:
  "(overlay_rules f g)(e \<mapsto> (case overlay_rules f g e of None \<Rightarrow> Map.empty | Some rules \<Rightarrow> rules)(a \<mapsto> m))
   = overlay_rules f (g(e \<mapsto> (case g e of None \<Rightarrow> Map.empty | Some rules \<Rightarrow> rules)(a \<mapsto> m)))"
  by (rule ext) (simp add: overlay_rules_def split: option.splits)

lemma acts_register_rule: "acts_on_right (register_rule m e a)"
  by (simp add: acts_on_right_def register_rule_def overlay_def overlay_rules_register)

lemma acts_fold:
  "(\<And>x. x \<in> set xs \<Longrightarrow> acts_on_right (h x)) \<Longrightarrow> acts_on_right (fold h xs)"
proof (induction xs)
  case Nil
  show ?case by (simp add: acts_on_right_def)
next
  case (Cons x xs)
  then have hx: "acts_on_right (h x)" and hxs: "acts_on_right (fold h xs)" by simp_all
  show ?case
    unfolding acts_on_right_def
  proof (intro allI)
    fix p q
    have "fold h (x # xs) (overlay p q) = fold h xs (h x (overlay p q))" by simp
    also have "\<dots> = fold h xs (overlay p (h x q))" using hx by (simp add: acts_on_right_def)
    also have "\<dots> = overlay p (fold h xs (h x q))" using hxs by (simp add: acts_on_right_def)
    finally show "fold h (x # xs) (overlay p q) = overlay p (fold h (x # xs) q)" by simp
  qed
qed

lemma acts_OnElements: "acts_on_right (OnElements b names)"
proof -
  have "acts_on_right (fold (\<lambda>e. fold (\<lambda>a. register_rule (regexp b) e a) (attrNames b)) names)"
    by (intro acts_fold acts_register_rule)
  then show ?thesis by (simp add: acts_on_right_def OnElements_def)
qed

lemma fold_upd_map_add:
  "fold (\<lambda>a g. g(a \<mapsto> m)) as (f ++ g0) = f ++ fold (\<lambda>a g. g(a \<mapsto> m)) as g0"
  by (induction as arbitrary: g0) (simp_all add: map_add_upd [symmetric] del: map_add_upd)

lemma acts_Globally: "acts_on_right (Globally b)"
  by (simp add: acts_on_right_def Globally_def overlay_def fold_upd_map_add)

lemma acts_url_setters:
  "acts_on_right (RequireParseableURLs True)"
  "acts_on_right (AllowRelativeURLs True)"
  "acts_on_right (AllowURLSchemes schemes)"
  "acts_on_right (RequireNoFollowOnLinks True)"
  by (simp_all add: acts_on_right_def overlay_def RequireParseableURLs_def AllowRelativeURLs_def
      AllowURLSchemes_def RequireNoFollowOnLinks_def Un_assoc)

lemma acts_do_calls:
  "(\<And>f. f \<in> set fs \<Longrightarrow> acts_on_right f) \<Longrightarrow> acts_on_right (do_calls fs)"
proof -
  assume "\<And>f. f \<in> set fs \<Longrightarrow> acts_on_right f"
  then have "acts_on_right (fold (\<lambda>f. f) fs)" by (rule acts_fold)
  then show ?thesis by (simp add: acts_on_right_def do_calls_def)
qed

lemma acts_AllowStandardURLs: "acts_on_right AllowStandardURLs"
  unfolding AllowStandardURLs_def by (rule acts_do_calls) (auto simp add: acts_url_setters)

lemma acts_AllowStandardAttributes: "acts_on_right AllowStandardAttributes"
  unfolding AllowStandardAttributes_def by (rule acts_do_calls) (auto simp add: acts_Globally)

lemma acts_AllowImages: "acts_on_right AllowImages"
  unfolding AllowImages_def
  by (rule acts_do_calls) (auto simp add: acts_OnElements acts_AllowStandardURLs)

lemma acts_AllowLists: "acts_on_right AllowLists"
  unfolding AllowLists_def
  by (rule acts_do_calls) (auto simp add: acts_OnElements acts_AllowElements)

lemma acts_AllowTables: "acts_on_right AllowTables"
  unfolding AllowTables_def
  by (rule acts_do_calls) (auto simp add: acts_OnElements acts_AllowElements)

lemma acts_apply_call: "acts_on_right (apply_call c)"
  by (cases c) (simp_all add: acts_AllowElements acts_OnElements acts_Globally
      acts_AllowStandardURLs acts_AllowStandardAttributes acts_AllowImages acts_AllowLists
      acts_AllowTables)

lemma acts_apply_calls: "acts_on_right (apply_calls cs)"
proof -
  have "acts_on_right (fold apply_call cs)" by (intro acts_fold acts_apply_call)
  then show ?thesis by (simp add: acts_on_right_def apply_calls_def)
qed

lemma acts_twice:
  assumes "acts_on_right f"
  shows "f (f p) = f p"
proof -
  have once: "f x = overlay x (f NewPolicy)" for x
    using assms overlay_NewPolicy [of x] by (metis acts_on_right_def)
  have "f (f p) = overlay (overlay p (f NewPolicy)) (f NewPolicy)"
    using once [of "f p"] once [of p] by simp
  then show ?thesis using once [of p] by (simp add: overlay_absorb)
qed

lemma apply_calls_append: "apply_calls (cs @ ds) p = apply_calls ds (apply_calls cs p)"
  by (simp add: apply_calls_def)

text \<open>
  C9. Applying a sequence of builder calls twice leaves the policy that applying it
  once leaves: the two policies are equal, so no rule entry is added by the second
  pass and \<open>evaluate\<close> and \<open>admissible\<close> give the same verdicts on every input.
  In particular each helper called twice is the helper called once.
\<close>

theorem builder_calls_idempotent:
  "apply_calls (cs @ cs) p = apply_calls cs p
   \<and> (\<forall>e a v. evaluate ut parses (apply_calls (cs @ cs) p) e a v = evaluate ut parses (apply_calls cs p) e a v)
   \<and> (\<forall>e. admissible (apply_calls (cs @ cs) p) e = admissible (apply_calls cs p) e)
   \<and> AllowTables (AllowTables p) = AllowTables p
   \<and> AllowLists (AllowLists p) = AllowLists p
   \<and> AllowImages (AllowImages p) = AllowImages p
   \<and> AllowStandardAttributes (AllowStandardAttributes p) = AllowStandardAttributes p
   \<and> AllowStandardURLs (AllowStandardURLs p) = AllowStandardURLs p"
  by (simp add: apply_calls_append acts_twice [OF acts_apply_calls] acts_twice [OF acts_AllowTables]
      acts_twice [OF acts_AllowLists] acts_twice [OF acts_AllowImages]
      acts_twice [OF acts_AllowStandardAttributes] acts_twice [OF acts_AllowStandardURLs])

subsection \<open>The helpers\<close>


lemma AllowImages_refines: "AllowImages p = apply_calls AllowImages_spec p"
  by (simp add: AllowImages_def AllowImages_spec_def apply_calls_def do_calls_def Matching_def
      AllowAttrs_def)

lemma AllowStandardURLs_effect:
  "AllowStandardURLs p =
     p\<lparr>urlPolicy := (urlPolicy p)\<lparr>requireParseable := True, allowRelative := True,
        allowedSchemes := allowedSchemes (urlPolicy p) \<union> {''mailto'', ''http'', ''https''},
        forceNoFollow := True\<rparr>\<rparr>"
  by (simp add: AllowStandardURLs_def do_calls_def RequireParseableURLs_def AllowRelativeURLs_def
      AllowURLSchemes_def RequireNoFollowOnLinks_def Un_commute insert_commute)

lemma AllowImages_effect:
  "AllowImages p =
     p\<lparr>elementAttributes := (elementAttributes p)
         (''img'' \<mapsto> (case elementAttributes p ''img'' of None \<Rightarrow> Map.empty | Some rules \<Rightarrow> rules)
            (''align'' \<mapsto> Some ImageAlign, ''alt'' \<mapsto> Some Paragraph,
             ''height'' \<mapsto> Some NumberOrPercent, ''width'' \<mapsto> Some NumberOrPercent,
             ''src'' \<mapsto> None)),
       urlPolicy := (urlPolicy p)\<lparr>requireParseable := True, allowRelative := True,
         allowedSchemes := allowedSchemes (urlPolicy p) \<union> {''mailto'', ''http'', ''https''},
         forceNoFollow := True\<rparr>\<rparr>"
  by (simp add: AllowImages_def do_calls_def AllowStandardURLs_effect OnElements_def
      register_rule_def Matching_def AllowAttrs_def)

text \<open>
  C8. \<open>AllowImages\<close> is the sequence of primitive calls the specification gives for
  it, and its whole effect on a policy is: on img the rules align with \<open>ImageAlign\<close>,
  alt with \<open>Paragraph\<close>, height and width with \<open>NumberOrPercent\<close> and src with no
  matcher, and the standard-URL settings; nothing else changes.
\<close>

theorem AllowImages_is_its_sequence:
  "AllowImages p = apply_calls AllowImages_spec p
   \<and> AllowImages p =
     p\<lparr>elementAttributes := (elementAttributes p)
         (''img'' \<mapsto> (case elementAttributes p ''img'' of None \<Rightarrow> Map.empty | Some rules \<Rightarrow> rules)
            (''align'' \<mapsto> Some ImageAlign, ''alt'' \<mapsto> Some Paragraph,
             ''height'' \<mapsto> Some NumberOrPercent, ''width'' \<mapsto> Some NumberOrPercent,
             ''src'' \<mapsto> None)),
       urlPolicy := (urlPolicy p)\<lparr>requireParseable := True, allowRelative := True,
         allowedSchemes := allowedSchemes (urlPolicy p) \<union> {''mailto'', ''http'', ''https''},
         forceNoFollow := True\<rparr>\<rparr>"
  using AllowImages_refines [of p] AllowImages_effect [of p] by simp

subsection \<open>URL admission\<close>























end
